theory Spec2Isabelle
  imports Main "HOL-Library.Word" "HOL-Library.Multiset"
begin

unbundle bit_operations_syntax

section \<open>The Game Voice daemon (gv_daemon.py)\<close>

text \<open>
  A shallow embedding of \<^verbatim>\<open>gv_daemon.py\<close>. The status mask is the single byte
  that \<^verbatim>\<open>os.read(fd, 1)\<close> delivers (\<^verbatim>\<open>data[0]\<close>, a value in 0..255), so it
  is an 8-bit word. Python exceptions are values of the type \<open>exn\<close>; a function that can
  raise returns \<open>exn + 'a\<close> with \<open>Inl\<close> for the exception.
\<close>

subsection \<open>Exceptions\<close>

datatype exn =
    KeyError
  | TypeError
  | AttributeError
  | ValueError string
  | NameError string
  | BlockingIOError
  | OSError
  | KeyboardInterrupt
  | SystemExit int

text \<open>\<^verbatim>\<open>except Exception\<close> catches everything but the two \<^verbatim>\<open>BaseException\<close>s.\<close>

fun is_Exception :: "exn \<Rightarrow> bool" where
  "is_Exception KeyboardInterrupt = False"
| "is_Exception (SystemExit n) = False"
| "is_Exception e = True"

subsection \<open>Bit constants\<close>

type_synonym mask = "8 word"

definition BIT_ALL :: mask where "BIT_ALL = 0x01"
definition BIT_TEAM :: mask where "BIT_TEAM = 0x02"
definition BIT_CH1 :: mask where "BIT_CH1 = 0x04"
definition BIT_CH2 :: mask where "BIT_CH2 = 0x08"
definition BIT_CH3 :: mask where "BIT_CH3 = 0x10"
definition BIT_CH4 :: mask where "BIT_CH4 = 0x20"
definition BIT_CMD :: mask where "BIT_CMD = 0x40"
definition BIT_MUTE :: mask where "BIT_MUTE = 0x80"

text \<open>A dict keeps insertion order: the association list is in the order of the literal.\<close>

definition BIT_NAMES :: "(mask \<times> string) list" where
  "BIT_NAMES =
    [(BIT_ALL, ''all''), (BIT_TEAM, ''team''), (BIT_CH1, ''chan1''), (BIT_CH2, ''chan2''),
     (BIT_CH3, ''chan3''), (BIT_CH4, ''chan4''), (BIT_CMD, ''command''), (BIT_MUTE, ''mute'')]"

definition PRINT_ORDER :: "mask list" where
  "PRINT_ORDER = [BIT_MUTE, BIT_CMD, BIT_ALL, BIT_TEAM, BIT_CH1, BIT_CH2, BIT_CH3, BIT_CH4]"

text \<open>\<^verbatim>\<open>d[k]\<close>: raises \<^verbatim>\<open>KeyError\<close> on a missing key.\<close>

definition dict_item :: "('k \<times> 'v) list \<Rightarrow> 'k \<Rightarrow> exn + 'v" where
  "dict_item d k = (case map_of d k of None \<Rightarrow> Inl KeyError | Some v \<Rightarrow> Inr v)"

subsection \<open>Decoding\<close>

text \<open>An entry of \<^verbatim>\<open>decode_edges\<close>: \<^verbatim>\<open>(f"{base}_{edge}", bit, edge)\<close>.\<close>

type_synonym edge = "string \<times> mask \<times> string"

text \<open>The \<^verbatim>\<open>for bit in PRINT_ORDER\<close> loop, \<open>events\<close> being the list appended to.\<close>

fun decode_edges_loop :: "mask \<Rightarrow> mask \<Rightarrow> mask list \<Rightarrow> edge list \<Rightarrow> exn + edge list" where
  "decode_edges_loop changed curr_mask [] events = Inr events"
| "decode_edges_loop changed curr_mask (b # bits) events =
     (if changed AND b \<noteq> 0 then
        (case dict_item BIT_NAMES b of
           Inl e \<Rightarrow> Inl e
         | Inr base \<Rightarrow>
             (let edge = (if curr_mask AND b \<noteq> 0 then ''on'' else ''off'')
              in decode_edges_loop changed curr_mask bits
                   (events @ [(base @ ''_'' @ edge, b, edge)])))
      else decode_edges_loop changed curr_mask bits events)"

definition decode_edges :: "mask \<Rightarrow> mask \<Rightarrow> exn + edge list" where
  "decode_edges prev_mask curr_mask =
     decode_edges_loop (prev_mask XOR curr_mask) curr_mask PRINT_ORDER []"

text \<open>\<^verbatim>\<open>f"{mask:02x}"\<close> of a byte: two lower-case hexadecimal digits.\<close>

definition hex_digit :: "nat \<Rightarrow> char" where
  "hex_digit n = ''0123456789abcdef'' ! (n mod 16)"

definition hex02 :: "mask \<Rightarrow> string" where
  "hex02 m = [hex_digit (unat m div 16), hex_digit (unat m mod 16)]"

text \<open>
  \<^verbatim>\<open>decode_edges0\<close> iterates over \<^verbatim>\<open>BIT_NAMES.items()\<close>, appends pairs, and ends
  with the aggregate mask entry. Its \<^verbatim>\<open>print ()\<close> writes one empty line; the model
  returns the lines printed together with the list.
\<close>

fun decode_edges0_loop :: "mask \<Rightarrow> mask \<Rightarrow> (mask \<times> string) list \<Rightarrow> (string \<times> string) list
    \<Rightarrow> (string \<times> string) list" where
  "decode_edges0_loop changed curr_mask [] events = events"
| "decode_edges0_loop changed curr_mask ((b, base) # items) events =
     (if changed AND b \<noteq> 0 then
        (let edge = (if curr_mask AND b \<noteq> 0 then ''on'' else ''off'')
         in decode_edges0_loop changed curr_mask items (events @ [(base @ ''_'' @ edge, edge)]))
      else decode_edges0_loop changed curr_mask items events)"

definition decode_edges0 :: "mask \<Rightarrow> mask \<Rightarrow> string list \<times> (string \<times> string) list" where
  "decode_edges0 prev_mask curr_mask =
     ([''''],
      decode_edges0_loop (prev_mask XOR curr_mask) curr_mask BIT_NAMES []
        @ [(''mask_'' @ hex02 curr_mask, ''state'')])"

text \<open>\<^verbatim>\<open>active_set\<close> and \<^verbatim>\<open>fmt_mask\<close>.\<close>

fun active_set_loop :: "mask \<Rightarrow> mask list \<Rightarrow> string list \<Rightarrow> exn + string list" where
  "active_set_loop m [] names = Inr names"
| "active_set_loop m (b # bits) names =
     (if m AND b \<noteq> 0 then
        (case dict_item BIT_NAMES b of
           Inl e \<Rightarrow> Inl e
         | Inr base \<Rightarrow> active_set_loop m bits (names @ [base]))
      else active_set_loop m bits names)"

definition active_set :: "mask \<Rightarrow> exn + string list" where
  "active_set m = active_set_loop m PRINT_ORDER []"

fun join :: "string \<Rightarrow> string list \<Rightarrow> string" where
  "join sep [] = ''''"
| "join sep [x] = x"
| "join sep (x # y # ys) = x @ sep @ join sep (y # ys)"

definition fmt_mask :: "mask \<Rightarrow> exn + string" where
  "fmt_mask m =
     (case active_set m of
        Inl e \<Rightarrow> Inl e
      | Inr names \<Rightarrow>
          (if names \<noteq> [] then Inr (''0x'' @ hex02 m @ '' ['' @ join '', '' names @ '']'')
           else Inr (''0x'' @ hex02 m @ '' [none]'')))"

subsection \<open>Configuration constants\<close>

definition HIDRAW_OVERRIDE :: string where "HIDRAW_OVERRIDE = ''/dev/hidraw0''"
definition VID_HEX :: string where "VID_HEX = ''045e''"
definition PID_HEX :: string where "PID_HEX = ''003b''"
definition MAP_FILE :: string where "MAP_FILE = ''gvmap.yaml''"
definition NR_ENABLED :: bool where "NR_ENABLED = True"

subsection \<open>Values loaded from YAML\<close>

text \<open>
  What \<^verbatim>\<open>yaml.safe_load\<close> returns: null, booleans, integers, strings, lists and
  dicts. A dict is the list of its items in order, with string keys (the only keys the
  daemon looks up are strings; floats are left out).
\<close>

datatype yaml =
    YNull
  | YBool bool
  | YInt int
  | YStr string
  | YList "yaml list"
  | YDict "(string \<times> yaml) list"

text \<open>Python truthiness, as \<^verbatim>\<open>if spec:\<close> tests it.\<close>

fun truthy :: "yaml \<Rightarrow> bool" where
  "truthy YNull = False"
| "truthy (YBool b) = b"
| "truthy (YInt i) = (i \<noteq> 0)"
| "truthy (YStr s) = (s \<noteq> [])"
| "truthy (YList xs) = (xs \<noteq> [])"
| "truthy (YDict kvs) = (kvs \<noteq> [])"

text \<open>\<^verbatim>\<open>d.get(k, default)\<close>: only a dict has \<^verbatim>\<open>get\<close>.\<close>

definition yaml_get :: "yaml \<Rightarrow> string \<Rightarrow> yaml \<Rightarrow> exn + yaml" where
  "yaml_get d k dflt =
     (case d of
        YDict kvs \<Rightarrow> Inr (case map_of kvs k of None \<Rightarrow> dflt | Some v \<Rightarrow> v)
      | _ \<Rightarrow> Inl AttributeError)"

text \<open>\<^verbatim>\<open>d[k]\<close> with a string key.\<close>

definition yaml_item :: "yaml \<Rightarrow> string \<Rightarrow> exn + yaml" where
  "yaml_item d k = (case d of YDict kvs \<Rightarrow> dict_item kvs k | _ \<Rightarrow> Inl TypeError)"

text \<open>\<^verbatim>\<open>for k in keys\<close>: a list gives its elements, a string its characters, a dict
  its keys; nothing else is iterable.\<close>

fun iter_yaml :: "yaml \<Rightarrow> exn + yaml list" where
  "iter_yaml (YList xs) = Inr xs"
| "iter_yaml (YStr s) = Inr (map (\<lambda>c. YStr [c]) s)"
| "iter_yaml (YDict kvs) = Inr (map (\<lambda>kv. YStr (fst kv)) kvs)"
| "iter_yaml v = Inl TypeError"

text \<open>
  \<^verbatim>\<open>load_map\<close>. Its argument is what opening and parsing the mapping file gave: an
  exception, or the loaded value.
\<close>

definition load_map :: "exn + yaml \<Rightarrow> exn + yaml" where
  "load_map loaded =
     (case loaded of
        Inl e \<Rightarrow> Inl e
      | Inr data \<Rightarrow>
          (case data of
             YDict kvs \<Rightarrow>
               (case map_of kvs ''bindings'' of
                  None \<Rightarrow> Inl (ValueError ''Top-level 'bindings' missing in mapping file.'')
                | Some b \<Rightarrow> Inr b)
           | _ \<Rightarrow> Inl (ValueError ''Top-level 'bindings' missing in mapping file.'')))"

subsection \<open>Effects, the environment and the state\<close>

text \<open>The payload sent to Node-RED: event, edge, mask_hex, mask_int, active (the
  timestamp, a float, is left out).\<close>

type_synonym payload = "string \<times> string \<times> string \<times> mask \<times> string list"

text \<open>
  Every call that leaves the program is an effect, recorded in the trace in the order
  the calls are made. \<open>Ui_write code value\<close> is \<^verbatim>\<open>ui.write(E.EV_KEY, code, value)\<close>;
  \<open>Print_warn msg e\<close> is the print of \<open>msg\<close> followed by the text of \<open>e\<close>.
\<close>

datatype effect =
    Print string
  | Print_stderr string
  | Print_warn string exn
  | UInput_open
  | Os_open string
  | Open_map string
  | Os_read
  | Requests_post payload
  | Spawn_curl payload
  | Ui_write int int
  | Ui_syn
  | Popen yaml
  | Sleep
  | Ui_close
  | Os_close

text \<open>
  The environment: \<open>raises\<close> says whether a call raises, given the calls made so far
  (a failing sink, or a \<^verbatim>\<open>KeyboardInterrupt\<close> arriving during the call);
  \<open>have_requests\<close> whether \<^verbatim>\<open>import requests\<close> succeeded; \<open>ecodes\<close> the attributes
  of \<^verbatim>\<open>evdev.ecodes\<close>; \<open>map_file\<close> what opening and parsing the mapping file gives.
\<close>

record env =
  raises :: "effect list \<Rightarrow> effect \<Rightarrow> exn option"
  have_requests :: bool
  ecodes :: "(string \<times> int) list"
  map_file :: "exn + yaml"

text \<open>The state of \<^verbatim>\<open>main\<close>: the variable \<^verbatim>\<open>prev\<close> and the trace.\<close>

record pstate =
  prev :: "mask option"
  trace :: "effect list"

type_synonym 'a io = "pstate \<Rightarrow> (exn + 'a) \<times> pstate"

definition io_return :: "'a \<Rightarrow> 'a io" where
  "io_return a s = (Inr a, s)"

definition io_raise :: "exn \<Rightarrow> 'a io" where
  "io_raise e s = (Inl e, s)"

definition io_lift :: "exn + 'a \<Rightarrow> 'a io" where
  "io_lift r s = (r, s)"

definition io_bind :: "'a io \<Rightarrow> ('a \<Rightarrow> 'b io) \<Rightarrow> 'b io" where
  "io_bind m f s = (case m s of (Inl e, s') \<Rightarrow> (Inl e, s') | (Inr a, s') \<Rightarrow> f a s')"

text \<open>\<^verbatim>\<open>try: m except: h\<close>, the handler deciding which exceptions it takes.\<close>

definition io_catch :: "'a io \<Rightarrow> (exn \<Rightarrow> 'a io) \<Rightarrow> 'a io" where
  "io_catch m h s = (case m s of (Inl e, s') \<Rightarrow> h e s' | (Inr a, s') \<Rightarrow> (Inr a, s'))"

text \<open>\<^verbatim>\<open>try: m finally: fin\<close>: \<open>fin\<close> runs on every exit of \<open>m\<close>; an exception of
  \<open>fin\<close> replaces the outcome of \<open>m\<close>.\<close>

definition io_finally :: "'a io \<Rightarrow> unit io \<Rightarrow> 'a io" where
  "io_finally m fin s =
     (case m s of (r, s') \<Rightarrow>
        (case fin s' of (Inl e, s'') \<Rightarrow> (Inl e, s'') | (Inr u, s'') \<Rightarrow> (r, s'')))"

definition call :: "env \<Rightarrow> effect \<Rightarrow> unit io" where
  "call env eff s =
     (case raises env (trace s) eff of
        None \<Rightarrow> (Inr (), s\<lparr>trace := trace s @ [eff]\<rparr>)
      | Some e \<Rightarrow> (Inl e, s\<lparr>trace := trace s @ [eff]\<rparr>))"

definition set_prev :: "mask option \<Rightarrow> unit io" where
  "set_prev p s = (Inr (), s\<lparr>prev := p\<rparr>)"

subsection \<open>Key injection and actions\<close>

text \<open>
  \<^verbatim>\<open>KEYCODES = {name: getattr(E, name) for name in dir(E) if name.startswith("KEY_")}\<close>
\<close>

definition KEYCODES :: "(string \<times> int) list \<Rightarrow> (string \<times> int) list" where
  "KEYCODES E = filter (\<lambda>nv. take 4 (fst nv) = ''KEY_'') E"

text \<open>\<^verbatim>\<open>KEYCODES[k]\<close>: a list or dict is unhashable; any other value that is not a
  key of the table is a \<^verbatim>\<open>KeyError\<close>.\<close>

fun keycode :: "(string \<times> int) list \<Rightarrow> yaml \<Rightarrow> exn + int" where
  "keycode E (YStr s) = dict_item (KEYCODES E) s"
| "keycode E (YList xs) = Inl TypeError"
| "keycode E (YDict kvs) = Inl TypeError"
| "keycode E v = Inl KeyError"

text \<open>One \<^verbatim>\<open>for k in ...: ui.write(E.EV_KEY, KEYCODES[k], v)\<close> loop.\<close>

fun write_keys :: "env \<Rightarrow> yaml list \<Rightarrow> int \<Rightarrow> unit io" where
  "write_keys env [] v = io_return ()"
| "write_keys env (k # ks) v =
     io_bind (io_lift (keycode (ecodes env) k)) (\<lambda>code.
     io_bind (call env (Ui_write code v)) (\<lambda>u.
     write_keys env ks v))"

definition press_combo :: "env \<Rightarrow> yaml \<Rightarrow> unit io" where
  "press_combo env keys =
     io_bind (io_lift (iter_yaml keys)) (\<lambda>ks.
     io_bind (write_keys env ks 1) (\<lambda>u.
     io_bind (write_keys env (rev ks) 0) (\<lambda>u.
     call env Ui_syn)))"

definition do_action :: "env \<Rightarrow> yaml \<Rightarrow> unit io" where
  "do_action env spec =
     io_bind (io_lift (yaml_get spec ''type'' (YStr ''key''))) (\<lambda>t.
       if t = YStr ''key'' then
         io_bind (io_lift (yaml_item spec ''keys'')) (\<lambda>keys. press_combo env keys)
       else if t = YStr ''shell'' then
         io_bind (io_lift (yaml_item spec ''cmd'')) (\<lambda>cmd. call env (Popen cmd))
       else io_return ())"

subsection \<open>Notification\<close>

definition emit_to_nodered :: "env \<Rightarrow> string \<Rightarrow> string \<Rightarrow> mask \<Rightarrow> unit io" where
  "emit_to_nodered env event_name edge m =
     (if \<not> NR_ENABLED then io_return ()
      else
        io_bind (io_lift (active_set m)) (\<lambda>act.
          if have_requests env then
            io_catch (call env (Requests_post (event_name, edge, hex02 m, m, act)))
              (\<lambda>e. if is_Exception e
                    then call env (Print_warn ''[GV] WARN: Node-RED POST failed: '' e)
                    else io_raise e)
          else
            io_catch (call env (Spawn_curl (event_name, edge, hex02 m, m, act)))
              (\<lambda>e. if is_Exception e
                    then call env (Print_warn ''[GV] WARN: curl POST failed: '' e)
                    else io_raise e)))"

subsection \<open>The poll loop\<close>

text \<open>\<^verbatim>\<open>f"{ev_name:12s}"\<close>: left-aligned in a field of width 12.\<close>

definition ljust12 :: "string \<Rightarrow> string" where
  "ljust12 s = s @ replicate (12 - length s) CHR '' ''"

text \<open>The body of \<^verbatim>\<open>for ev_name, bit, edge in decode_edges(prev, curr)\<close>.\<close>

definition process_edge :: "env \<Rightarrow> yaml \<Rightarrow> mask \<Rightarrow> edge \<Rightarrow> unit io" where
  "process_edge env bindings cur ev =
     (case ev of (ev_name, b, edge) \<Rightarrow>
        io_bind (io_lift (fmt_mask cur)) (\<lambda>fm.
        io_bind (call env (Print (''[GV] '' @ ljust12 ev_name @ ''  . state '' @ fm))) (\<lambda>u.
        io_bind (emit_to_nodered env ev_name edge cur) (\<lambda>u.
        io_bind (io_lift (yaml_get bindings ev_name YNull)) (\<lambda>spec.
          if truthy spec then do_action env spec else io_return ())))))"

fun for_edges :: "env \<Rightarrow> yaml \<Rightarrow> mask \<Rightarrow> edge list \<Rightarrow> unit io" where
  "for_edges env bindings cur [] = io_return ()"
| "for_edges env bindings cur (ev # evs) =
     io_bind (process_edge env bindings cur ev) (\<lambda>u. for_edges env bindings cur evs)"

text \<open>What one \<^verbatim>\<open>os.read(fd, 1)\<close> gives: a byte, the empty bytes object, or an
  exception (\<^verbatim>\<open>BlockingIOError\<close> when no data is available).\<close>

datatype read_result = Data mask | No_data | Read_raises exn

definition os_read :: "read_result \<Rightarrow> mask option io" where
  "os_read rd s =
     (case rd of
        Data c \<Rightarrow> (Inr (Some c), s\<lparr>trace := trace s @ [Os_read]\<rparr>)
      | No_data \<Rightarrow> (Inr None, s\<lparr>trace := trace s @ [Os_read]\<rparr>)
      | Read_raises e \<Rightarrow> (Inl e, s\<lparr>trace := trace s @ [Os_read]\<rparr>))"

text \<open>How the \<^verbatim>\<open>try\<close> block of an iteration ends: by \<^verbatim>\<open>continue\<close>, which skips
  the sleep, or by reaching its end.\<close>

datatype flow = Continue | Next

definition poll_try :: "env \<Rightarrow> yaml \<Rightarrow> read_result \<Rightarrow> flow io" where
  "poll_try env bindings rd =
     io_bind (os_read rd) (\<lambda>data.
       case data of
         None \<Rightarrow> io_return Continue
       | Some cur \<Rightarrow>
           (\<lambda>s. case prev s of
              None \<Rightarrow>
                io_bind (set_prev (Some cur)) (\<lambda>u.
                io_bind (io_lift (fmt_mask cur)) (\<lambda>fm.
                io_bind (call env (Print (''[GV] INIT state = '' @ fm))) (\<lambda>u.
                io_return Continue))) s
            | Some p \<Rightarrow>
                (if cur = p then io_return Continue
                 else
                   io_bind (io_lift (decode_edges p cur)) (\<lambda>evs.
                   io_bind (for_edges env bindings cur evs) (\<lambda>u.
                   io_bind (set_prev (Some cur)) (\<lambda>u.
                   io_return Next)))) s))"

text \<open>One iteration of \<^verbatim>\<open>while True\<close>.\<close>

definition poll_iter :: "env \<Rightarrow> yaml \<Rightarrow> read_result \<Rightarrow> unit io" where
  "poll_iter env bindings rd =
     io_bind
       (io_catch (poll_try env bindings rd)
          (\<lambda>e. if e = BlockingIOError then io_return Next else io_raise e))
       (\<lambda>fl. case fl of Continue \<Rightarrow> io_return () | Next \<Rightarrow> call env Sleep)"

text \<open>
  The loop never ends by itself. It is run on the results of the successive reads; when
  they are used up the loop is still polling, and this is its value.
\<close>

datatype run = Polling | Done

fun poll_loop :: "env \<Rightarrow> yaml \<Rightarrow> read_result list \<Rightarrow> run io" where
  "poll_loop env bindings [] = io_return Polling"
| "poll_loop env bindings (rd # rds) =
     io_bind (poll_iter env bindings rd) (\<lambda>u. poll_loop env bindings rds)"

subsection \<open>main\<close>

text \<open>
  \<^verbatim>\<open>HIDRAW_OVERRIDE or find_hidraw_by_vidpid(VID_HEX, PID_HEX,true)\<close>: a non-empty
  override is the node; otherwise the call is evaluated, and its argument \<^verbatim>\<open>true\<close>
  is not a defined name.
\<close>

definition locate_node :: "string \<Rightarrow> exn + string" where
  "locate_node override = (if override \<noteq> [] then Inr override else Inl (NameError ''true''))"

text \<open>The \<^verbatim>\<open>try ... except KeyboardInterrupt ... finally\<close> around the loop. While the
  loop is still polling, neither the handler nor the \<^verbatim>\<open>finally\<close> block has run.\<close>

definition guarded_loop :: "env \<Rightarrow> yaml \<Rightarrow> read_result list \<Rightarrow> run io" where
  "guarded_loop env bindings reads s =
     (case poll_loop env bindings reads s of
        (Inr r, s') \<Rightarrow> (Inr Polling, s')
      | (Inl e, s') \<Rightarrow>
          io_finally
            (if e = KeyboardInterrupt then io_return Done else io_raise e)
            (io_bind (call env Ui_close) (\<lambda>u. call env Os_close)) s')"

definition main_with :: "string \<Rightarrow> env \<Rightarrow> read_result list \<Rightarrow> run io" where
  "main_with override env reads =
     io_bind (io_lift (locate_node override)) (\<lambda>node.
     io_bind (if node = [] then
                io_bind (call env (Print_stderr
                   (''[GV] ERROR: hidraw node not found for '' @ VID_HEX @ '':'' @ PID_HEX @ ''.'')))
                  (\<lambda>u. io_raise (SystemExit 3))
              else io_return ()) (\<lambda>u.
     io_bind (call env (Print (''[GV] Using '' @ node))) (\<lambda>u.
     io_bind (call env UInput_open) (\<lambda>u.
     io_bind (call env (Os_open node)) (\<lambda>u.
     io_bind (call env (Open_map MAP_FILE)) (\<lambda>u.
     io_bind (io_lift (load_map (map_file env))) (\<lambda>bindings.
     io_bind (set_prev None) (\<lambda>u.
     io_bind (call env (Print
        ''[GV] Daemon running. Press buttons; readable diagnostics below. Ctrl+C to exit.'')) (\<lambda>u.
     guarded_loop env bindings reads)))))))))"

definition start :: pstate where
  "start = \<lparr>prev = None, trace = []\<rparr>"

definition main :: "env \<Rightarrow> read_result list \<Rightarrow> (exn + run) \<times> pstate" where
  "main env reads = main_with HIDRAW_OVERRIDE env reads start"

text \<open>
  The exit status of the process running \<^verbatim>\<open>main()\<close>: 0 when it returns, the argument
  of \<^verbatim>\<open>sys.exit\<close>, 1 for an exception nobody caught (130, the status of a process
  ended by SIGINT, for a \<^verbatim>\<open>KeyboardInterrupt\<close>); none while it is polling.
\<close>

fun exit_status :: "exn + run \<Rightarrow> int option" where
  "exit_status (Inr Polling) = None"
| "exit_status (Inr Done) = Some 0"
| "exit_status (Inl (SystemExit n)) = Some n"
| "exit_status (Inl KeyboardInterrupt) = Some 130"
| "exit_status (Inl e) = Some 1"

text \<open>Which resources are open after a trace.\<close>

fun ui_open :: "effect list \<Rightarrow> bool \<Rightarrow> bool" where
  "ui_open [] b = b"
| "ui_open (UInput_open # es) b = ui_open es True"
| "ui_open (Ui_close # es) b = ui_open es False"
| "ui_open (e # es) b = ui_open es b"

fun fd_open :: "effect list \<Rightarrow> bool \<Rightarrow> bool" where
  "fd_open [] b = b"
| "fd_open (Os_open n # es) b = fd_open es True"
| "fd_open (Os_close # es) b = fd_open es False"
| "fd_open (e # es) b = fd_open es b"

text \<open>Environments for concrete runs: every call succeeds.\<close>

definition quiet :: "effect list \<Rightarrow> effect \<Rightarrow> exn option" where
  "quiet tr eff = None"

definition sample_ecodes :: "(string \<times> int) list" where
  "sample_ecodes = [(''EV_KEY'', 1), (''KEY_LEFTCTRL'', 29), (''KEY_A'', 30), (''KEY_M'', 50)]"

definition env_of :: "yaml \<Rightarrow> env" where
  "env_of data = \<lparr>raises = quiet, have_requests = True, ecodes = sample_ecodes,
     map_file = Inr data\<rparr>"

text \<open>The calls that perform an action (key injection, command launch), and the calls
  that notify.\<close>

fun is_action :: "effect \<Rightarrow> bool" where
  "is_action (Ui_write c v) = True"
| "is_action Ui_syn = True"
| "is_action (Popen cmd) = True"
| "is_action e = False"


text \<open>A computation that leaves the variable \<^verbatim>\<open>prev\<close> as it is, however it ends.\<close>

definition keeps_prev :: "'a io \<Rightarrow> bool" where
  "keeps_prev m = (\<forall>s. prev (snd (m s)) = prev s)"

text \<open>
  A computation that handles no failure of the calls it makes: it adds only action calls to
  the trace (so it prints nothing), and when one of its calls raises, that call is its last
  one and the exception raised is its own outcome.
\<close>

definition propagates :: "env \<Rightarrow> 'a io \<Rightarrow> bool" where
  "propagates env m =
     (\<forall>s. \<exists>tr. snd (m s) = s\<lparr>trace := trace s @ tr\<rparr>
        \<and> (\<forall>eff\<in>set tr. is_action eff)
        \<and> (\<forall>i<length tr. \<forall>e. raises env (trace s @ take i tr) (tr ! i) = Some e
              \<longrightarrow> Suc i = length tr \<and> fst (m s) = Inl e))"

text \<open>The direction of an edge of bit \<open>b\<close> into the mask \<open>c\<close>, as both decoders compute it.\<close>

definition dir_of :: "mask \<Rightarrow> mask \<Rightarrow> string" where
  "dir_of c b = (if c AND b \<noteq> 0 then ''on'' else ''off'')"

section \<open>Edge decoding\<close>

lemmas bit_defs = BIT_ALL_def BIT_TEAM_def BIT_CH1_def BIT_CH2_def
      BIT_CH3_def BIT_CH4_def BIT_CMD_def BIT_MUTE_def

lemma decode_edges_loop_eq:
  "\<forall>b\<in>set bits. map_of BIT_NAMES b \<noteq> None \<Longrightarrow>
   decode_edges_loop ch c bits ev =
     Inr (ev @ map (\<lambda>b. (the (map_of BIT_NAMES b) @ ''_'' @ dir_of c b, b, dir_of c b))
                 (filter (\<lambda>b. ch AND b \<noteq> 0) bits))"
  by (induction bits arbitrary: ev) (auto simp: dict_item_def dir_of_def Let_def)

lemma bit_names_total: "\<forall>b\<in>set PRINT_ORDER. map_of BIT_NAMES b \<noteq> None"
  by (simp add: PRINT_ORDER_def BIT_NAMES_def bit_defs)

lemma xor_eq_0_mask: "(x XOR y = 0) = (x = y)" for x y :: mask
  by (metis bit.xor_left_self xor.right_neutral)

lemma xor_and_differs: "((p XOR c) AND b \<noteq> 0) = (p AND b \<noteq> c AND b)" for p c b :: mask
  by (simp add: bit.conj_xor_distrib2 xor_eq_0_mask)

lemma and_pow_differs: "(p AND 2 ^ i \<noteq> c AND 2 ^ i) = (bit p i \<noteq> bit c i)" for p c :: mask
proof -
  have "(p AND 2 ^ i \<noteq> c AND 2 ^ i) = ((p XOR c) AND 2 ^ i \<noteq> 0)"
    by (simp add: xor_and_differs)
  also have "\<dots> = bit (p XOR c) i"
    by (simp add: and_exp_eq_0_iff_not_bit)
  also have "\<dots> = (bit p i \<noteq> bit c i)"
    by (simp add: bit_xor_iff)
  finally show ?thesis .
qed

lemma decode_edges_eq:
  "decode_edges p c =
     Inr (map (\<lambda>b. (the (map_of BIT_NAMES b) @ ''_'' @ dir_of c b, b, dir_of c b))
                 (filter (\<lambda>b. p AND b \<noteq> c AND b) PRINT_ORDER))"
  unfolding decode_edges_def
  by (simp add: decode_edges_loop_eq [OF bit_names_total] xor_and_differs)

lemma below_8: "i < 8 \<Longrightarrow> i = 0 \<or> i = 1 \<or> i = 2 \<or> i = 3 \<or> i = 4 \<or> i = 5 \<or> i = 6 \<or> i = (7::nat)"
  by arith

lemma print_order_once:
  assumes "i < 8"
  shows "filter (\<lambda>b. b = 2 ^ i) (filter P PRINT_ORDER) = (if P (2 ^ i) then [2 ^ i] else [])"
  using below_8 [OF assms]
  by (elim disjE) (simp_all add: PRINT_ORDER_def bit_defs)

lemma print_order_names:
  "map (\<lambda>b. map_of BIT_NAMES b) PRINT_ORDER =
     [Some ''mute'', Some ''command'', Some ''all'', Some ''team'',
      Some ''chan1'', Some ''chan2'', Some ''chan3'', Some ''chan4'']"
  by (simp add: PRINT_ORDER_def BIT_NAMES_def bit_defs)

lemma print_order_bits: "b \<in> set PRINT_ORDER \<Longrightarrow> \<exists>i<8. b = 2 ^ i"
proof -
  assume "b \<in> set PRINT_ORDER"
  then have "b = 2 ^ 7 \<or> b = 2 ^ 6 \<or> b = 2 ^ 0 \<or> b = 2 ^ 1 \<or> b = 2 ^ 2 \<or> b = 2 ^ 3
      \<or> b = 2 ^ 4 \<or> b = 2 ^ 5"
    by (auto simp: PRINT_ORDER_def bit_defs)
  moreover have "(7::nat) < 8" "(6::nat) < 8" "(0::nat) < 8" "(1::nat) < 8" "(2::nat) < 8"
    "(3::nat) < 8" "(4::nat) < 8" "(5::nat) < 8"
    by simp_all
  ultimately show ?thesis
    by blast
qed

text \<open>
  C1. For all status bytes \<open>p\<close> and \<open>c\<close>, \<^verbatim>\<open>decode_edges\<close> returns (it does not raise) a
  list whose bits are exactly the bits of \<^verbatim>\<open>PRINT_ORDER\<close> on which \<open>p\<close> and \<open>c\<close> differ,
  in the order of \<^verbatim>\<open>PRINT_ORDER\<close>: each of the eight bits occurs once when it differs and
  not at all otherwise, every entry is one of the eight bits, its direction is "on" when
  the bit is set in \<open>c\<close> and "off" otherwise, and its name is the flag's name, an underscore
  and the direction. The order is mute, command, all, team, chan1 .. chan4. Equal masks
  give the empty list, and 0x00 to 0x81 gives mute_on then all_on.
\<close>

theorem decode_edges_spec:
  "\<exists>es. decode_edges p c = Inr es
     \<and> map (\<lambda>(n, b, e). b) es = filter (\<lambda>b. p AND b \<noteq> c AND b) PRINT_ORDER
     \<and> (\<forall>i<8. length (filter (\<lambda>(n, b, e). b = 2 ^ i) es) = (if bit p i = bit c i then 0 else 1))
     \<and> (\<forall>(n, b, e)\<in>set es. (\<exists>i<8. b = 2 ^ i)
           \<and> e = (if c AND b \<noteq> 0 then ''on'' else ''off'')
           \<and> (\<exists>base. map_of BIT_NAMES b = Some base \<and> n = base @ ''_'' @ e))
     \<and> map (\<lambda>b. map_of BIT_NAMES b) PRINT_ORDER =
         [Some ''mute'', Some ''command'', Some ''all'', Some ''team'',
          Some ''chan1'', Some ''chan2'', Some ''chan3'', Some ''chan4'']
     \<and> decode_edges c c = Inr []
     \<and> decode_edges 0x00 0x81 = Inr [(''mute_on'', 0x80, ''on''), (''all_on'', 0x01, ''on'')]"
proof -
  let ?f = "\<lambda>b. (the (map_of BIT_NAMES b) @ ''_'' @ dir_of c b, b, dir_of c b)"
  let ?es = "map ?f (filter (\<lambda>b. p AND b \<noteq> c AND b) PRINT_ORDER)"
  have 1: "decode_edges p c = Inr ?es" by (rule decode_edges_eq)
  have 2: "map (\<lambda>(n, b, e). b) ?es = filter (\<lambda>b. p AND b \<noteq> c AND b) PRINT_ORDER"
    by (simp add: comp_def)
  have 3: "length (filter (\<lambda>(n, b, e). b = 2 ^ i) ?es) = (if bit p i = bit c i then 0 else 1)"
    if "i < 8" for i
  proof -
    have "filter (\<lambda>(n, b, e). b = 2 ^ i) ?es
          = map ?f (filter (\<lambda>b. b = 2 ^ i) (filter (\<lambda>b. p AND b \<noteq> c AND b) PRINT_ORDER))"
      by (simp only: filter_map comp_def split_conv)
    then show ?thesis
      by (simp only: print_order_once [OF that] and_pow_differs length_map) simp
  qed
  have 4: "(\<exists>i<8. b = 2 ^ i) \<and> e = (if c AND b \<noteq> 0 then ''on'' else ''off'')
           \<and> (\<exists>base. map_of BIT_NAMES b = Some base \<and> n = base @ ''_'' @ e)"
    if "(n, b, e) \<in> set ?es" for n b e
  proof -
    from that have b: "b \<in> set PRINT_ORDER" and e: "e = dir_of c b"
      and n: "n = the (map_of BIT_NAMES b) @ ''_'' @ e"
      by auto
    from b bit_names_total obtain base where "map_of BIT_NAMES b = Some base" by auto
    with b e n show ?thesis
      by (auto simp: dir_of_def dest: print_order_bits)
  qed
  have 5: "decode_edges c c = Inr []"
    by (simp add: decode_edges_eq)
  have 6: "decode_edges 0x00 0x81 = Inr [(''mute_on'', 0x80, ''on''), (''all_on'', 0x01, ''on'')]"
    by (simp add: decode_edges_def PRINT_ORDER_def BIT_NAMES_def bit_defs dict_item_def Let_def)
  have all3: "\<forall>i<8. length (filter (\<lambda>(n, b, e). b = 2 ^ i) ?es) = (if bit p i = bit c i then 0 else 1)"
    by (intro allI impI) (rule 3)
  have all4: "\<forall>(n, b, e)\<in>set ?es. (\<exists>i<8. b = 2 ^ i)
           \<and> e = (if c AND b \<noteq> 0 then ''on'' else ''off'')
           \<and> (\<exists>base. map_of BIT_NAMES b = Some base \<and> n = base @ ''_'' @ e)"
  proof
    fix x assume x: "x \<in> set ?es"
    obtain n b e where xe: "x = (n, b, e)" by (cases x)
    from x have "(n, b, e) \<in> set ?es" unfolding xe .
    from 4 [OF this] show "case x of (n, b, e) \<Rightarrow> (\<exists>i<8. b = 2 ^ i)
           \<and> e = (if c AND b \<noteq> 0 then ''on'' else ''off'')
           \<and> (\<exists>base. map_of BIT_NAMES b = Some base \<and> n = base @ ''_'' @ e)"
      unfolding xe split_conv .
  qed
  show ?thesis
    by (rule exI [of _ ?es]) (intro conjI 1 2 all3 all4 print_order_names 5 6)
qed

text \<open>The theorem used at \<open>p = 0x00\<close>, \<open>c = 0x81\<close>: bit 7 occurs once, bit 1 does not occur.\<close>

theorem decode_edges_spec_witness:
  "\<exists>es. decode_edges 0x00 0x81 = Inr es
     \<and> length (filter (\<lambda>(n, b, e). b = 2 ^ 7) es) = 1
     \<and> length (filter (\<lambda>(n, b, e). b = 2 ^ 1) es) = 0"
proof -
  from decode_edges_spec [of "0x00" "0x81"] obtain es where
    es: "decode_edges 0x00 0x81 = Inr es"
    and cnt: "\<forall>i<8. length (filter (\<lambda>(n, b, e). b = 2 ^ i) es)
                = (if bit (0x00::mask) i = bit (0x81::mask) i then 0 else 1)"
    by (elim exE conjE)
  have "(7::nat) < 8" and "(1::nat) < 8" by simp_all
  with cnt have "length (filter (\<lambda>(n, b, e). b = 2 ^ 7) es)
                = (if bit (0x00::mask) 7 = bit (0x81::mask) 7 then 0 else 1)"
    and "length (filter (\<lambda>(n, b, e). b = 2 ^ 1) es)
                = (if bit (0x00::mask) 1 = bit (0x81::mask) 1 then 0 else 1)"
    by blast+
  then have "length (filter (\<lambda>(n, b, e). b = 2 ^ 7) es) = 1"
    and "length (filter (\<lambda>(n, b, e). b = 2 ^ 1) es) = 0"
    by simp_all
  with es show ?thesis by blast
qed

lemma decode_edges0_loop_eq:
  "decode_edges0_loop ch c items ev =
     ev @ map (\<lambda>kv. (snd kv @ ''_'' @ dir_of c (fst kv), dir_of c (fst kv)))
              (filter (\<lambda>kv. ch AND fst kv \<noteq> 0) items)"
  by (induction items arbitrary: ev) (auto simp: dir_of_def Let_def)

lemma bit_names_lookup: "kv \<in> set BIT_NAMES \<Longrightarrow> the (map_of BIT_NAMES (fst kv)) = snd kv"
  by (auto simp: BIT_NAMES_def bit_defs)

lemma print_order_perm: "mset PRINT_ORDER = mset (map fst BIT_NAMES)"
  by (simp add: PRINT_ORDER_def BIT_NAMES_def)

lemma decode_edges0_eq:
  "snd (decode_edges0 p c) =
     map (\<lambda>b. (the (map_of BIT_NAMES b) @ ''_'' @ dir_of c b, dir_of c b))
         (filter (\<lambda>b. p AND b \<noteq> c AND b) (map fst BIT_NAMES))
     @ [(''mask_'' @ hex02 c, ''state'')]"
proof -
  have "map (\<lambda>kv. (snd kv @ ''_'' @ dir_of c (fst kv), dir_of c (fst kv)))
              (filter (\<lambda>kv. (p XOR c) AND fst kv \<noteq> 0) BIT_NAMES)
        = map (\<lambda>kv. (the (map_of BIT_NAMES (fst kv)) @ ''_'' @ dir_of c (fst kv), dir_of c (fst kv)))
              (filter (\<lambda>kv. (p XOR c) AND fst kv \<noteq> 0) BIT_NAMES)"
    by (rule map_cong) (simp_all add: bit_names_lookup)
  also have "\<dots> = map (\<lambda>b. (the (map_of BIT_NAMES b) @ ''_'' @ dir_of c b, dir_of c b))
         (filter (\<lambda>b. p AND b \<noteq> c AND b) (map fst BIT_NAMES))"
    by (simp add: filter_map comp_def xor_and_differs)
  finally show ?thesis
    by (simp add: decode_edges0_def decode_edges0_loop_eq)
qed

text \<open>
  C9. For all status bytes \<open>p\<close> and \<open>c\<close>, the entries of \<^verbatim>\<open>decode_edges\<close>, with the bit
  dropped from each triple, are the entries of \<^verbatim>\<open>decode_edges0\<close> without its last one, up
  to their order (equal as multisets, hence as sets); the last entry of
  \<^verbatim>\<open>decode_edges0\<close> is the aggregate mask entry.
\<close>

theorem decoders_agree:
  "\<exists>es es0. decode_edges p c = Inr es
      \<and> snd (decode_edges0 p c) = es0 @ [(''mask_'' @ hex02 c, ''state'')]
      \<and> mset (map (\<lambda>(n, b, e). (n, e)) es) = mset es0
      \<and> set (map (\<lambda>(n, b, e). (n, e)) es) = set es0"
proof -
  let ?h = "\<lambda>b. (the (map_of BIT_NAMES b) @ ''_'' @ dir_of c b, dir_of c b)"
  let ?P = "\<lambda>b. p AND b \<noteq> c AND b"
  let ?es = "map (\<lambda>b. (the (map_of BIT_NAMES b) @ ''_'' @ dir_of c b, b, dir_of c b))
                 (filter ?P PRINT_ORDER)"
  let ?zs = "map ?h (filter ?P (map fst BIT_NAMES))"
  have 1: "decode_edges p c = Inr ?es" by (rule decode_edges_eq)
  have 2: "snd (decode_edges0 p c) = ?zs @ [(''mask_'' @ hex02 c, ''state'')]"
    by (rule decode_edges0_eq)
  have proj: "map (\<lambda>(n, b, e). (n, e)) ?es = map ?h (filter ?P PRINT_ORDER)"
    by (simp add: comp_def)
  have 3: "mset (map (\<lambda>(n, b, e). (n, e)) ?es) = mset ?zs"
    unfolding proj by (simp only: mset_map mset_filter print_order_perm)
  from 3 have 4: "set (map (\<lambda>(n, b, e). (n, e)) ?es) = set ?zs"
    by (rule mset_eq_setD)
  show ?thesis
    by (rule exI [of _ ?es], rule exI [of _ ?zs]) (intro conjI 1 2 3 4)
qed

section \<open>Key combinations and actions\<close>

lemmas io_defs = io_return_def io_raise_def io_lift_def io_bind_def io_catch_def io_finally_def
  call_def set_prev_def




text \<open>
  C10. An action spec that is a mapping without a \<^verbatim>\<open>type\<close> field is handled as a key
  combo: \<^verbatim>\<open>do_action\<close> does what it does on the same mapping with \<^verbatim>\<open>type: key\<close>
  added, namely \<^verbatim>\<open>press_combo\<close> on its \<^verbatim>\<open>keys\<close> entry (a \<^verbatim>\<open>KeyError\<close> when there
  is none).
\<close>

theorem do_action_default_type:
  assumes "map_of kvs ''type'' = None"
  shows "do_action env (YDict kvs) s = do_action env (YDict ((''type'', YStr ''key'') # kvs)) s
       \<and> do_action env (YDict kvs) s
           = (case map_of kvs ''keys'' of
                None \<Rightarrow> (Inl KeyError, s)
              | Some keys \<Rightarrow> press_combo env keys s)"
  using assms
  by (simp add: do_action_def yaml_get_def yaml_item_def dict_item_def io_bind_def io_lift_def
      split: option.split)

theorem do_action_default_type_witness:
  "do_action (env_of YNull) (YDict [(''keys'', YList [YStr ''KEY_A''])]) start
   = (Inr (), \<lparr>prev = None, trace = [Ui_write 30 1, Ui_write 30 0, Ui_syn]\<rparr>)
   \<and> do_action (env_of YNull) (YDict [(''keys'', YList [YStr ''KEY_A''])]) start
   = do_action (env_of YNull) (YDict [(''type'', YStr ''key''), (''keys'', YList [YStr ''KEY_A''])])
       start"
proof -
  have 1: "map_of [(''keys'', YList [YStr ''KEY_A''])] ''type'' = None"
    by simp
  have 2: "press_combo (env_of YNull) (YList [YStr ''KEY_A'']) start
     = (Inr (), \<lparr>prev = None, trace = [Ui_write 30 1, Ui_write 30 0, Ui_syn]\<rparr>)"
    by (simp add: press_combo_def io_defs env_of_def quiet_def KEYCODES_def sample_ecodes_def
        dict_item_def start_def)
  note t = do_action_default_type [OF 1, of "env_of YNull" start]
  have a: "do_action (env_of YNull) (YDict [(''keys'', YList [YStr ''KEY_A''])]) start
      = do_action (env_of YNull)
          (YDict [(''type'', YStr ''key''), (''keys'', YList [YStr ''KEY_A''])]) start"
    by (rule conjunct1 [OF t])
  have b: "do_action (env_of YNull) (YDict [(''keys'', YList [YStr ''KEY_A''])]) start
      = press_combo (env_of YNull) (YList [YStr ''KEY_A'']) start"
    using conjunct2 [OF t] by simp
  from b 2 have "do_action (env_of YNull) (YDict [(''keys'', YList [YStr ''KEY_A''])]) start
      = (Inr (), \<lparr>prev = None, trace = [Ui_write 30 1, Ui_write 30 0, Ui_syn]\<rparr>)"
    by (rule trans)
  with a show ?thesis
    by (simp only: simp_thms)
qed

section \<open>The poll loop\<close>

lemma active_set_loop_total:
  "\<forall>b\<in>set bits. map_of BIT_NAMES b \<noteq> None \<Longrightarrow> \<exists>act. active_set_loop m bits names = Inr act"
  by (induction bits arbitrary: names) (auto simp: dict_item_def)

lemma active_set_total: "\<exists>act. active_set m = Inr act"
  unfolding active_set_def by (rule active_set_loop_total [OF bit_names_total])

lemma fmt_mask_total: "\<exists>fm. fmt_mask m = Inr fm"
  using active_set_total [of m] by (auto simp: fmt_mask_def)

text \<open>
  C2. With no previous state stored, an iteration that reads the byte \<open>c\<close> stores \<open>c\<close>
  as the previous state and makes one call after the read, the print of the INIT line: no
  notification and no action, whatever the environment. When the print succeeds, the
  iteration ends normally (by \<^verbatim>\<open>continue\<close>, without sleeping).
\<close>

theorem first_read_is_baseline:
  assumes "prev s = None"
  shows "\<exists>fm. fmt_mask c = Inr fm
      \<and> snd (poll_try env bindings (Data c) s)
          = s\<lparr>prev := Some c,
              trace := trace s @ [Os_read, Print (''[GV] INIT state = '' @ fm)]\<rparr>
      \<and> (raises env (trace s @ [Os_read]) (Print (''[GV] INIT state = '' @ fm)) = None
           \<longrightarrow> poll_iter env bindings (Data c) s
               = (Inr (), s\<lparr>prev := Some c,
                    trace := trace s @ [Os_read, Print (''[GV] INIT state = '' @ fm)]\<rparr>))"
proof -
  from fmt_mask_total obtain fm where fm: "fmt_mask c = Inr fm" by blast
  have 1: "snd (poll_try env bindings (Data c) s)
          = s\<lparr>prev := Some c,
              trace := trace s @ [Os_read, Print (''[GV] INIT state = '' @ fm)]\<rparr>"
    using assms
    by (simp add: poll_try_def os_read_def io_defs fm split: option.split)
  have 2: "poll_iter env bindings (Data c) s
               = (Inr (), s\<lparr>prev := Some c,
                    trace := trace s @ [Os_read, Print (''[GV] INIT state = '' @ fm)]\<rparr>)"
    if "raises env (trace s @ [Os_read]) (Print (''[GV] INIT state = '' @ fm)) = None"
    using assms that
    by (simp add: poll_iter_def poll_try_def os_read_def io_defs fm)
  show ?thesis
    by (rule exI [of _ fm]) (simp add: fm 1 2)
qed

theorem first_read_is_baseline_witness:
  "poll_iter (env_of YNull) YNull (Data 0x04) start
     = (Inr (), \<lparr>prev = Some 0x04, trace = [Os_read, Print ''[GV] INIT state = 0x04 [chan1]'']\<rparr>)"
proof -
  have p: "prev start = None" by (simp add: start_def)
  have f: "fmt_mask 0x04 = Inr ''0x04 [chan1]''"
    by (simp add: fmt_mask_def active_set_def PRINT_ORDER_def BIT_NAMES_def bit_defs dict_item_def
        hex02_def hex_digit_def)
  have q: "raises (env_of YNull) tr eff = None" for tr eff
    by (simp add: env_of_def quiet_def)
  from first_read_is_baseline [OF p, of "0x04" "env_of YNull" YNull]
  obtain fm where "fmt_mask 0x04 = Inr fm"
    and "raises (env_of YNull) (trace start @ [Os_read]) (Print (''[GV] INIT state = '' @ fm)) = None
           \<longrightarrow> poll_iter (env_of YNull) YNull (Data 0x04) start
               = (Inr (), start\<lparr>prev := Some 0x04,
                    trace := trace start @ [Os_read, Print (''[GV] INIT state = '' @ fm)]\<rparr>)"
    by (elim exE conjE)
  with f q show ?thesis
    by (simp add: start_def)
qed



section \<open>Startup and shutdown\<close>

lemmas main_defs = main_def main_with_def guarded_loop_def locate_node_def load_map_def
  poll_iter_def poll_try_def os_read_def process_edge_def emit_to_nodered_def do_action_def
  press_combo_def yaml_get_def yaml_item_def dict_item_def KEYCODES_def
  HIDRAW_OVERRIDE_def MAP_FILE_def NR_ENABLED_def VID_HEX_def PID_HEX_def
  env_of_def quiet_def sample_ecodes_def start_def

text \<open>
  Where the \<^verbatim>\<open>finally\<close> block does its work: when the loop ends by an exception and
  the two close calls succeed, both resources are closed, and a \<^verbatim>\<open>KeyboardInterrupt\<close>
  becomes a normal return.
\<close>

lemma guarded_loop_releases:
  assumes "poll_loop env bindings reads s = (Inl e, s1)"
    and "raises env (trace s1) Ui_close = None"
    and "raises env (trace s1 @ [Ui_close]) Os_close = None"
  shows "guarded_loop env bindings reads s
         = (if e = KeyboardInterrupt then Inr Done else Inl e,
            s1\<lparr>trace := trace s1 @ [Ui_close, Os_close]\<rparr>)"
  using assms by (simp add: guarded_loop_def io_defs)

text \<open>
  C8. A mapping file without the top-level \<^verbatim>\<open>bindings\<close> key, every call succeeding:
  \<^verbatim>\<open>main\<close> ends with the \<^verbatim>\<open>ValueError\<close> of \<^verbatim>\<open>load_map\<close> after opening the virtual
  device and the device node, and closes neither: \<^verbatim>\<open>load_map()\<close> is called before the
  \<^verbatim>\<open>try\<close> block whose \<^verbatim>\<open>finally\<close> closes them.
\<close>

theorem load_failure_leaves_resources_open:
  "main (env_of (YDict [(''other'', YNull)])) reads
     = (Inl (ValueError ''Top-level 'bindings' missing in mapping file.''),
        \<lparr>prev = None,
         trace = [Print ''[GV] Using /dev/hidraw0'', UInput_open, Os_open ''/dev/hidraw0'',
                  Open_map ''gvmap.yaml'']\<rparr>)
   \<and> ui_open (trace (snd (main (env_of (YDict [(''other'', YNull)])) reads))) False
   \<and> fd_open (trace (snd (main (env_of (YDict [(''other'', YNull)])) reads))) False"
proof -
  have m: "main (env_of (YDict [(''other'', YNull)])) reads
     = (Inl (ValueError ''Top-level 'bindings' missing in mapping file.''),
        \<lparr>prev = None,
         trace = [Print ''[GV] Using /dev/hidraw0'', UInput_open, Os_open ''/dev/hidraw0'',
                  Open_map ''gvmap.yaml'']\<rparr>)"
    by (simp add: main_defs io_defs)
  show ?thesis
    unfolding m by simp
qed

text \<open>
  C5. The exit status is 1 both when the device node cannot be opened (the override
  names a node that does not exist, so \<^verbatim>\<open>os.open\<close> raises) and when the mapping file
  has no \<^verbatim>\<open>bindings\<close> key; with an empty override the lookup expression raises
  \<^verbatim>\<open>NameError\<close> and the status is 1 again, so the status 3 of the "not found" branch
  is never produced. An interrupt during the loop gives status 0.
\<close>

theorem exit_status_not_distinct:
  "exit_status (fst (main
      ((env_of (YDict [(''bindings'', YDict [])]))
         \<lparr>raises := \<lambda>tr eff. if eff = Os_open ''/dev/hidraw0'' then Some OSError else None\<rparr>)
      reads)) = Some 1
   \<and> exit_status (fst (main (env_of (YDict [(''other'', YNull)])) reads)) = Some 1
   \<and> exit_status (fst (main_with '''' (env_of (YDict [(''bindings'', YDict [])])) reads start))
       = Some 1
   \<and> exit_status (fst (main (env_of (YDict [(''bindings'', YDict [])]))
        [Read_raises KeyboardInterrupt])) = Some 0"
  by (simp add: main_defs io_defs)

section \<open>Configuration and action failures\<close>

lemma keeps_prev_return: "keeps_prev (io_return a)"
  by (simp add: keeps_prev_def io_return_def)

lemma keeps_prev_raise: "keeps_prev (io_raise e)"
  by (simp add: keeps_prev_def io_raise_def)

lemma keeps_prev_lift: "keeps_prev (io_lift r)"
  by (simp add: keeps_prev_def io_lift_def)

lemma keeps_prev_call: "keeps_prev (call env eff)"
  by (simp add: keeps_prev_def call_def split: option.split)

lemma keeps_prev_bind:
  assumes "keeps_prev m" and "\<And>a. keeps_prev (f a)"
  shows "keeps_prev (io_bind m f)"
  unfolding keeps_prev_def
proof
  fix s
  show "prev (snd (io_bind m f s)) = prev s"
  proof (cases "m s")
    case (Pair r s')
    with assms(1) have s': "prev s' = prev s"
      by (auto simp: keeps_prev_def dest: spec [of _ s])
    show ?thesis
    proof (cases r)
      case (Inl e)
      with Pair s' show ?thesis by (simp add: io_bind_def)
    next
      case (Inr a)
      from assms(2) [of a] have "prev (snd (f a s')) = prev s'"
        by (simp add: keeps_prev_def)
      with Pair Inr s' show ?thesis by (simp add: io_bind_def)
    qed
  qed
qed

lemma keeps_prev_catch:
  assumes "keeps_prev m" and "\<And>e. keeps_prev (h e)"
  shows "keeps_prev (io_catch m h)"
  unfolding keeps_prev_def
proof
  fix s
  show "prev (snd (io_catch m h s)) = prev s"
  proof (cases "m s")
    case (Pair r s')
    with assms(1) have s': "prev s' = prev s"
      by (auto simp: keeps_prev_def dest: spec [of _ s])
    show ?thesis
    proof (cases r)
      case (Inl e)
      from assms(2) [of e] have "prev (snd (h e s')) = prev s'"
        by (simp add: keeps_prev_def)
      with Pair Inl s' show ?thesis by (simp add: io_catch_def)
    next
      case (Inr a)
      with Pair s' show ?thesis by (simp add: io_catch_def)
    qed
  qed
qed

lemmas keeps_prev_intros = keeps_prev_return keeps_prev_raise keeps_prev_lift keeps_prev_call
  keeps_prev_bind keeps_prev_catch

lemma keeps_prev_write_keys: "keeps_prev (write_keys env ks v)"
  by (induction ks) (auto intro!: keeps_prev_intros)

lemma keeps_prev_do_action: "keeps_prev (do_action env spec)"
  unfolding do_action_def press_combo_def
  by (auto intro!: keeps_prev_intros keeps_prev_write_keys)

lemma keeps_prev_emit: "keeps_prev (emit_to_nodered env n d c)"
  unfolding emit_to_nodered_def
  by (auto intro!: keeps_prev_intros)

lemma keeps_prev_process_edge: "keeps_prev (process_edge env bindings c ev)"
  unfolding process_edge_def
  by (cases ev) (auto intro!: keeps_prev_intros keeps_prev_emit keeps_prev_do_action)

lemma keeps_prev_for_edges: "keeps_prev (for_edges env bindings c evs)"
  by (induction evs) (auto intro!: keeps_prev_intros keeps_prev_process_edge)

lemma keeps_prevD: "keeps_prev m \<Longrightarrow> m s = (r, s') \<Longrightarrow> prev s' = prev s"
  by (auto simp: keeps_prev_def dest: spec [of _ s])

lemma for_edges_append:
  "for_edges env bindings c (xs @ ys) s
     = io_bind (for_edges env bindings c xs) (\<lambda>u. for_edges env bindings c ys) s"
proof (induction xs arbitrary: s)
  case Nil
  show ?case by (simp add: io_bind_def io_return_def)
next
  case (Cons x xs)
  show ?case
    by (cases "process_edge env bindings c x s") (auto simp: io_bind_def Cons split: sum.split)
qed

lemma propagates_return: "propagates env (io_return a)"
  unfolding propagates_def
  by (intro allI exI [of _ "[]"]) (simp add: io_return_def)

lemma propagates_raise: "propagates env (io_raise e)"
  unfolding propagates_def
  by (intro allI exI [of _ "[]"]) (simp add: io_raise_def)

lemma propagates_lift: "propagates env (io_lift r)"
  unfolding propagates_def
  by (intro allI exI [of _ "[]"]) (simp add: io_lift_def)

lemma propagates_call: "is_action eff \<Longrightarrow> propagates env (call env eff)"
  unfolding propagates_def
  by (intro allI exI [of _ "[eff]"]) (simp add: call_def split: option.split)

lemma propagates_bind:
  assumes m: "propagates env m" and f: "\<And>a. propagates env (f a)"
  shows "propagates env (io_bind m f)"
  unfolding propagates_def
proof
  fix s
  from m obtain tr1 where s1: "snd (m s) = s\<lparr>trace := trace s @ tr1\<rparr>"
    and a1: "\<forall>eff\<in>set tr1. is_action eff"
    and r1: "\<forall>i<length tr1. \<forall>e. raises env (trace s @ take i tr1) (tr1 ! i) = Some e
              \<longrightarrow> Suc i = length tr1 \<and> fst (m s) = Inl e"
    unfolding propagates_def by blast
  show "\<exists>tr. snd (io_bind m f s) = s\<lparr>trace := trace s @ tr\<rparr>
        \<and> (\<forall>eff\<in>set tr. is_action eff)
        \<and> (\<forall>i<length tr. \<forall>e. raises env (trace s @ take i tr) (tr ! i) = Some e
              \<longrightarrow> Suc i = length tr \<and> fst (io_bind m f s) = Inl e)"
  proof (cases "fst (m s)")
    case (Inl e)
    then have b: "io_bind m f s = (Inl e, snd (m s))"
      by (cases "m s") (simp add: io_bind_def)
    show ?thesis
      apply (rule exI [of _ tr1])
      using s1 a1 r1 Inl by (simp add: b)
  next
    case (Inr a)
    then have b: "io_bind m f s = f a (snd (m s))"
      by (cases "m s") (simp add: io_bind_def)
    let ?s1 = "s\<lparr>trace := trace s @ tr1\<rparr>"
    from f [of a] obtain tr2 where s2: "snd (f a ?s1) = ?s1\<lparr>trace := trace ?s1 @ tr2\<rparr>"
      and a2: "\<forall>eff\<in>set tr2. is_action eff"
      and r2: "\<forall>i<length tr2. \<forall>e. raises env (trace ?s1 @ take i tr2) (tr2 ! i) = Some e
              \<longrightarrow> Suc i = length tr2 \<and> fst (f a ?s1) = Inl e"
      unfolding propagates_def by blast
    have snd_eq: "snd (io_bind m f s) = s\<lparr>trace := trace s @ (tr1 @ tr2)\<rparr>"
      by (simp add: b s1 s2)
    have acts: "\<forall>eff\<in>set (tr1 @ tr2). is_action eff"
      using a1 a2 by auto
    have rs: "Suc i = length (tr1 @ tr2) \<and> fst (io_bind m f s) = Inl e"
      if i: "i < length (tr1 @ tr2)"
        and ra: "raises env (trace s @ take i (tr1 @ tr2)) ((tr1 @ tr2) ! i) = Some e" for i e
    proof (cases "i < length tr1")
      case True
      with ra have "raises env (trace s @ take i tr1) (tr1 ! i) = Some e"
        by (simp add: nth_append)
      with r1 True have "fst (m s) = Inl e" by blast
      with Inr show ?thesis by simp
    next
      case False
      let ?j = "i - length tr1"
      from False i have j: "?j < length tr2" by simp
      from False ra have "raises env (trace ?s1 @ take ?j tr2) (tr2 ! ?j) = Some e"
        by (simp add: nth_append)
      with r2 j have sj: "Suc ?j = length tr2" and fe: "fst (f a ?s1) = Inl e" by blast+
      from sj False have "Suc i = length tr1 + length tr2" by arith
      with fe show ?thesis by (simp add: b s1)
    qed
    show ?thesis
      apply (rule exI [of _ "tr1 @ tr2"])
      using snd_eq acts rs by blast
  qed
qed

lemma propagates_write_keys: "propagates env (write_keys env ks v)"
  by (induction ks) (auto intro!: propagates_return propagates_bind propagates_lift propagates_call)

lemma propagates_press_combo: "propagates env (press_combo env keys)"
  unfolding press_combo_def
  by (intro propagates_bind propagates_lift propagates_write_keys propagates_call) simp

lemma propagates_do_action: "propagates env (do_action env spec)"
  unfolding do_action_def
  by (auto intro!: propagates_bind propagates_lift propagates_press_combo propagates_call
      propagates_return)

lemma write_keys_unknown:
  assumes "\<exists>k\<in>set ks. map_of (KEYCODES (ecodes env)) k = None"
  shows "(\<exists>e. fst (write_keys env (map YStr ks) v s) = Inl e)
       \<and> ((\<forall>tr c. raises env tr (Ui_write c v) = None)
            \<longrightarrow> fst (write_keys env (map YStr ks) v s) = Inl KeyError)"
  using assms
proof (induction ks arbitrary: s)
  case Nil
  then show ?case by simp
next
  case (Cons k ks)
  show ?case
  proof (cases "map_of (KEYCODES (ecodes env)) k")
    case None
    then show ?thesis
      by (simp add: io_bind_def io_lift_def dict_item_def)
  next
    case (Some c)
    with Cons.prems have rest: "\<exists>k\<in>set ks. map_of (KEYCODES (ecodes env)) k = None"
      by auto
    show ?thesis
    proof (cases "raises env (trace s) (Ui_write c v)")
      case None
      with Some Cons.IH [OF rest, of "s\<lparr>trace := trace s @ [Ui_write c v]\<rparr>"] show ?thesis
        by (simp add: io_bind_def io_lift_def dict_item_def call_def)
    next
      case (Some e)
      with \<open>map_of (KEYCODES (ecodes env)) k = Some c\<close> show ?thesis
        by (auto simp: io_bind_def io_lift_def dict_item_def call_def)
    qed
  qed
qed

lemma do_action_unknown_key:
  assumes "map_of kvs ''type'' = None \<or> map_of kvs ''type'' = Some (YStr ''key'')"
    and "map_of kvs ''keys'' = Some (YList (map YStr ks))"
    and "\<exists>k\<in>set ks. map_of (KEYCODES (ecodes env)) k = None"
  shows "(\<exists>e. fst (do_action env (YDict kvs) s) = Inl e)
       \<and> ((\<forall>tr c. raises env tr (Ui_write c 1) = None)
            \<longrightarrow> fst (do_action env (YDict kvs) s) = Inl KeyError)"
proof -
  have da: "do_action env (YDict kvs) s = press_combo env (YList (map YStr ks)) s"
    using assms(1,2)
    by (auto simp: do_action_def yaml_get_def yaml_item_def dict_item_def io_bind_def io_lift_def)
  obtain r s' where w: "write_keys env (map YStr ks) 1 s = (r, s')"
    by (cases "write_keys env (map YStr ks) 1 s")
  from write_keys_unknown [OF assms(3), of 1 s] w obtain e where e: "r = Inl e"
    by auto
  have pc: "fst (press_combo env (YList (map YStr ks)) s) = fst (write_keys env (map YStr ks) 1 s)"
    by (simp add: press_combo_def io_bind_def io_lift_def w e)
  from write_keys_unknown [OF assms(3), of 1 s] show ?thesis
    by (simp add: da pc)
qed

lemma poll_loop_action_failure:
  assumes "prev s = Some p" and "p \<noteq> c"
    and "decode_edges p c = Inr (evs1 @ (n, b, d) # rest)"
    and "for_edges env (YDict kvs) c evs1 (s\<lparr>trace := trace s @ [Os_read]\<rparr>) = (Inr (), s1)"
    and "fmt_mask c = Inr fm"
    and "raises env (trace s1) (Print (''[GV] '' @ ljust12 n @ ''  . state '' @ fm)) = None"
    and "emit_to_nodered env n d c
           (s1\<lparr>trace := trace s1 @ [Print (''[GV] '' @ ljust12 n @ ''  . state '' @ fm)]\<rparr>)
         = (Inr (), s2)"
    and "map_of kvs n = Some spec" and "truthy spec"
    and "do_action env spec s2 = (Inl e, s3)"
    and "e \<noteq> BlockingIOError"
  shows "poll_loop env (YDict kvs) (Data c # rds) s = (Inl e, s3) \<and> prev s3 = Some p"
proof -
  have pe: "process_edge env (YDict kvs) c (n, b, d) s1 = (Inl e, s3)"
    using assms(5-10)
    by (simp add: process_edge_def io_bind_def io_lift_def call_def yaml_get_def)
  have fe: "for_edges env (YDict kvs) c (evs1 @ (n, b, d) # rest)
              (s\<lparr>trace := trace s @ [Os_read]\<rparr>) = (Inl e, s3)"
    by (simp add: for_edges_append io_bind_def assms(4) pe)
  have pt: "poll_try env (YDict kvs) (Data c) s = (Inl e, s3)"
    using assms(1,2)
    by (simp add: poll_try_def os_read_def io_bind_def io_lift_def assms(3) fe)
  have pi: "poll_iter env (YDict kvs) (Data c) s = (Inl e, s3)"
    using assms(11)
    by (simp add: poll_iter_def io_bind_def io_catch_def io_raise_def pt)
  have 1: "poll_loop env (YDict kvs) (Data c # rds) s = (Inl e, s3)"
    by (simp add: io_bind_def pi)
  have "prev s1 = prev (s\<lparr>trace := trace s @ [Os_read]\<rparr>)"
    by (rule keeps_prevD [OF keeps_prev_for_edges assms(4)])
  moreover have "prev s2
      = prev (s1\<lparr>trace := trace s1 @ [Print (''[GV] '' @ ljust12 n @ ''  . state '' @ fm)]\<rparr>)"
    by (rule keeps_prevD [OF keeps_prev_emit assms(7)])
  moreover have "prev s3 = prev s2"
    by (rule keeps_prevD [OF keeps_prev_do_action assms(10)])
  ultimately have 2: "prev s3 = Some p"
    using assms(1) by simp
  from 1 2 show ?thesis
    by (intro conjI)
qed

text \<open>
  C3, as the code has it. \<^verbatim>\<open>do_action\<close> handles no failure. Whatever the environment
  and the spec, it adds only action calls to the trace (it logs nothing), and when one of
  its calls (a key write, the \<^verbatim>\<open>syn\<close>, the command launch) raises, that call is its
  last one and \<^verbatim>\<open>do_action\<close> ends with the exception raised. A key combo with a key
  name that is not in the key-code table, at any position, ends with an exception, which
  is \<^verbatim>\<open>KeyError\<close> when the presses before it succeed. In the poll loop, when the
  action bound to an edge of a cycle raises \<open>e\<close> (the edges before it processed, its log
  line printed, its notification sent) and \<open>e\<close> is not \<^verbatim>\<open>BlockingIOError\<close>, the loop
  ends with \<open>e\<close> in the state the action left: the remaining edges of the cycle and the
  later reads are not processed, and the stored previous mask is still the old one.
\<close>

theorem action_failure_propagates:
  "(\<exists>tr. snd (do_action env spec s) = s\<lparr>trace := trace s @ tr\<rparr>
        \<and> (\<forall>eff\<in>set tr. is_action eff)
        \<and> (\<forall>i<length tr. \<forall>e. raises env (trace s @ take i tr) (tr ! i) = Some e
              \<longrightarrow> Suc i = length tr \<and> fst (do_action env spec s) = Inl e))
   \<and> (map_of kvs ''type'' = None \<or> map_of kvs ''type'' = Some (YStr ''key'') \<longrightarrow>
       map_of kvs ''keys'' = Some (YList (map YStr ks)) \<longrightarrow>
       (\<exists>k\<in>set ks. map_of (KEYCODES (ecodes env')) k = None) \<longrightarrow>
         (\<exists>e. fst (do_action env' (YDict kvs) s') = Inl e)
         \<and> ((\<forall>tr c. raises env' tr (Ui_write c 1) = None)
              \<longrightarrow> fst (do_action env' (YDict kvs) s') = Inl KeyError))
   \<and> (prev t = Some p \<longrightarrow> p \<noteq> c \<longrightarrow>
       decode_edges p c = Inr (evs1 @ (n, b, d) # rest) \<longrightarrow>
       for_edges env'' (YDict bnds) c evs1 (t\<lparr>trace := trace t @ [Os_read]\<rparr>) = (Inr (), t1) \<longrightarrow>
       fmt_mask c = Inr fm \<longrightarrow>
       raises env'' (trace t1) (Print (''[GV] '' @ ljust12 n @ ''  . state '' @ fm)) = None \<longrightarrow>
       emit_to_nodered env'' n d c
           (t1\<lparr>trace := trace t1 @ [Print (''[GV] '' @ ljust12 n @ ''  . state '' @ fm)]\<rparr>)
         = (Inr (), t2) \<longrightarrow>
       map_of bnds n = Some aspec \<longrightarrow> truthy aspec \<longrightarrow>
       do_action env'' aspec t2 = (Inl x, t3) \<longrightarrow> x \<noteq> BlockingIOError \<longrightarrow>
         poll_loop env'' (YDict bnds) (Data c # rds) t = (Inl x, t3) \<and> prev t3 = Some p)"
proof -
  have 1: "\<exists>tr. snd (do_action env spec s) = s\<lparr>trace := trace s @ tr\<rparr>
        \<and> (\<forall>eff\<in>set tr. is_action eff)
        \<and> (\<forall>i<length tr. \<forall>e. raises env (trace s @ take i tr) (tr ! i) = Some e
              \<longrightarrow> Suc i = length tr \<and> fst (do_action env spec s) = Inl e)"
    using propagates_do_action [of env spec] unfolding propagates_def by (rule spec)
  have 2: "map_of kvs ''type'' = None \<or> map_of kvs ''type'' = Some (YStr ''key'') \<longrightarrow>
       map_of kvs ''keys'' = Some (YList (map YStr ks)) \<longrightarrow>
       (\<exists>k\<in>set ks. map_of (KEYCODES (ecodes env')) k = None) \<longrightarrow>
         (\<exists>e. fst (do_action env' (YDict kvs) s') = Inl e)
         \<and> ((\<forall>tr c. raises env' tr (Ui_write c 1) = None)
              \<longrightarrow> fst (do_action env' (YDict kvs) s') = Inl KeyError)"
    by (intro impI) (rule do_action_unknown_key)
  have 3: "prev t = Some p \<longrightarrow> p \<noteq> c \<longrightarrow>
       decode_edges p c = Inr (evs1 @ (n, b, d) # rest) \<longrightarrow>
       for_edges env'' (YDict bnds) c evs1 (t\<lparr>trace := trace t @ [Os_read]\<rparr>) = (Inr (), t1) \<longrightarrow>
       fmt_mask c = Inr fm \<longrightarrow>
       raises env'' (trace t1) (Print (''[GV] '' @ ljust12 n @ ''  . state '' @ fm)) = None \<longrightarrow>
       emit_to_nodered env'' n d c
           (t1\<lparr>trace := trace t1 @ [Print (''[GV] '' @ ljust12 n @ ''  . state '' @ fm)]\<rparr>)
         = (Inr (), t2) \<longrightarrow>
       map_of bnds n = Some aspec \<longrightarrow> truthy aspec \<longrightarrow>
       do_action env'' aspec t2 = (Inl x, t3) \<longrightarrow> x \<noteq> BlockingIOError \<longrightarrow>
         poll_loop env'' (YDict bnds) (Data c # rds) t = (Inl x, t3) \<and> prev t3 = Some p"
    by (intro impI) (rule poll_loop_action_failure)
  show ?thesis
    by (intro conjI 1 2 3)
qed

text \<open>
  The theorem used at concrete inputs: a virtual device whose \<^verbatim>\<open>syn\<close> fails, a combo
  whose second key is unknown, and the cycle from 0x00 to 0x81 with that combo bound to
  \<^verbatim>\<open>mute_on\<close>.
\<close>

theorem action_failure_propagates_witness:
  "fst (do_action
          ((env_of YNull)\<lparr>raises := \<lambda>tr eff. if eff = Ui_syn then Some OSError else None\<rparr>)
          (YDict [(''keys'', YList [YStr ''KEY_A''])]) start) = Inl OSError
   \<and> fst (do_action (env_of YNull)
          (YDict [(''type'', YStr ''key''),
                  (''keys'', YList [YStr ''KEY_LEFTCTRL'', YStr ''KEY_BOGUS''])]) start)
       = Inl KeyError
   \<and> poll_loop (env_of YNull)
       (YDict [(''mute_on'', YDict [(''type'', YStr ''key''),
                                     (''keys'', YList [YStr ''KEY_LEFTCTRL'', YStr ''KEY_BOGUS''])])])
       [Data 0x81, Data 0x00] \<lparr>prev = Some 0x00, trace = []\<rparr>
     = (Inl KeyError,
        \<lparr>prev = Some 0x00,
         trace = [Os_read, Print ''[GV] mute_on       . state 0x81 [mute, all]'',
                  Requests_post (''mute_on'', ''on'', ''81'', 0x81, [''mute'', ''all'']),
                  Ui_write 29 1]\<rparr>)"
proof -
  let ?envS = "(env_of YNull)\<lparr>raises := \<lambda>tr eff. if eff = Ui_syn then Some OSError else None\<rparr>"
  let ?specS = "YDict [(''keys'', YList [YStr ''KEY_A''])]"
  let ?kvs = "[(''type'', YStr ''key''),
               (''keys'', YList [YStr ''KEY_LEFTCTRL'', YStr ''KEY_BOGUS''])]"
  let ?spec = "YDict ?kvs"
  let ?s = "\<lparr>prev = Some (0x00::mask), trace = []\<rparr>"
  let ?s1 = "\<lparr>prev = Some (0x00::mask), trace = [Os_read]\<rparr>"
  let ?s2 = "\<lparr>prev = Some (0x00::mask),
              trace = [Os_read, Print ''[GV] mute_on       . state 0x81 [mute, all]'',
                Requests_post (''mute_on'', ''on'', ''81'', 0x81, [''mute'', ''all''])]\<rparr>"
  let ?s3 = "\<lparr>prev = Some (0x00::mask),
              trace = [Os_read, Print ''[GV] mute_on       . state 0x81 [mute, all]'',
                Requests_post (''mute_on'', ''on'', ''81'', 0x81, [''mute'', ''all'']),
                Ui_write 29 1]\<rparr>"
  note inst = action_failure_propagates [of ?envS ?specS start ?kvs
      "[''KEY_LEFTCTRL'', ''KEY_BOGUS'']" "env_of YNull" start ?s "0x00" "0x81" "[]"
      "''mute_on''" "0x80" "''on''" "[(''all_on'', 0x01, ''on'')]" "env_of YNull"
      "[(''mute_on'', ?spec)]" ?s1 "''0x81 [mute, all]''" ?s2 ?spec KeyError ?s3 "[Data 0x00]"]
  note p1 = conjunct1 [OF inst]
  note p2 = conjunct1 [OF conjunct2 [OF inst]]
  note p3 = conjunct2 [OF conjunct2 [OF inst]]

  have sn: "snd (do_action ?envS ?specS start)
      = \<lparr>prev = None, trace = [Ui_write 30 1, Ui_write 30 0, Ui_syn]\<rparr>"
    by (simp add: do_action_def press_combo_def yaml_get_def yaml_item_def dict_item_def
        io_defs env_of_def KEYCODES_def sample_ecodes_def start_def)
  from p1 obtain tr where tr: "snd (do_action ?envS ?specS start) = start\<lparr>trace := trace start @ tr\<rparr>"
    and r: "\<forall>i<length tr. \<forall>e. raises ?envS (trace start @ take i tr) (tr ! i) = Some e
              \<longrightarrow> Suc i = length tr \<and> fst (do_action ?envS ?specS start) = Inl e"
    by (elim exE conjE)
  from tr sn have tr_eq: "tr = [Ui_write 30 1, Ui_write 30 0, Ui_syn]"
    by (simp add: start_def)
  have "raises ?envS (trace start @ take 2 tr) (tr ! 2) = Some OSError"
    by (simp add: tr_eq)
  moreover have "2 < length tr"
    by (simp add: tr_eq)
  ultimately have w1: "fst (do_action ?envS ?specS start) = Inl OSError"
    using r by blast

  have b1: "map_of ?kvs ''type'' = None \<or> map_of ?kvs ''type'' = Some (YStr ''key'')"
    by simp
  have b2: "map_of ?kvs ''keys'' = Some (YList (map YStr [''KEY_LEFTCTRL'', ''KEY_BOGUS'']))"
    by simp
  have b3: "\<exists>k\<in>set [''KEY_LEFTCTRL'', ''KEY_BOGUS''].
              map_of (KEYCODES (ecodes (env_of YNull))) k = None"
    by (simp add: env_of_def KEYCODES_def sample_ecodes_def)
  have b4: "\<forall>tr c. raises (env_of YNull) tr (Ui_write c 1) = None"
    by (simp add: env_of_def quiet_def)
  from p2 b1 b2 b3 b4 have w2: "fst (do_action (env_of YNull) ?spec start) = Inl KeyError"
    by blast

  have a1: "prev ?s = Some 0x00" by simp
  have a2: "(0x00::mask) \<noteq> 0x81" by simp
  have a3: "decode_edges 0x00 0x81 = Inr ([] @ (''mute_on'', 0x80, ''on'') # [(''all_on'', 0x01, ''on'')])"
    by (simp add: decode_edges_def PRINT_ORDER_def BIT_NAMES_def bit_defs dict_item_def Let_def)
  have a4: "for_edges (env_of YNull) (YDict [(''mute_on'', ?spec)]) 0x81 []
              (?s\<lparr>trace := trace ?s @ [Os_read]\<rparr>) = (Inr (), ?s1)"
    by (simp add: io_return_def)
  have act: "active_set 0x81 = Inr [''mute'', ''all'']"
    by (simp add: active_set_def PRINT_ORDER_def BIT_NAMES_def bit_defs dict_item_def)
  have a5: "fmt_mask 0x81 = Inr ''0x81 [mute, all]''"
    by (simp add: fmt_mask_def act hex02_def hex_digit_def)
  have l: "ljust12 ''mute_on'' = ''mute_on     ''"
    by (simp add: ljust12_def numeral_eq_Suc)
  have a6: "raises (env_of YNull) (trace ?s1)
             (Print (''[GV] '' @ ljust12 ''mute_on'' @ ''  . state '' @ ''0x81 [mute, all]'')) = None"
    by (simp add: env_of_def quiet_def)
  have a7: "emit_to_nodered (env_of YNull) ''mute_on'' ''on'' 0x81
           (?s1\<lparr>trace := trace ?s1 @
               [Print (''[GV] '' @ ljust12 ''mute_on'' @ ''  . state '' @ ''0x81 [mute, all]'')]\<rparr>)
         = (Inr (), ?s2)"
    by (simp add: emit_to_nodered_def NR_ENABLED_def io_defs act env_of_def quiet_def l
        hex02_def hex_digit_def)
  have a8: "map_of [(''mute_on'', ?spec)] ''mute_on'' = Some ?spec" by simp
  have a9: "truthy ?spec" by simp
  have a10: "do_action (env_of YNull) ?spec ?s2 = (Inl KeyError, ?s3)"
    by (simp add: do_action_def press_combo_def yaml_get_def yaml_item_def dict_item_def
        io_defs env_of_def quiet_def KEYCODES_def sample_ecodes_def)
  have a11: "KeyError \<noteq> BlockingIOError" by simp
  from p3 [rule_format, OF a1 a2 a3 a4 a5 a6 a7 a8 a9 a10 a11]
  have w3: "poll_loop (env_of YNull) (YDict [(''mute_on'', ?spec)]) [Data 0x81, Data 0x00] ?s
      = (Inl KeyError, ?s3)"
    by (rule conjunct1)
  from w1 w2 w3 show ?thesis
    by (intro conjI)
qed

text \<open>
  C3, as the specification states it, fails: with a binding for \<^verbatim>\<open>mute_on\<close> whose second key is
  not a key name, the change from 0x00 to 0x81 ends the daemon with \<^verbatim>\<open>KeyError\<close>. The
  edge \<^verbatim>\<open>all_on\<close> is not processed, the third read never happens, no warning is
  printed, and the stored previous mask is still 0x00.
\<close>

theorem unknown_key_ends_daemon:
  "main (env_of (YDict [(''bindings'',
       YDict [(''mute_on'', YDict [(''type'', YStr ''key''),
                 (''keys'', YList [YStr ''KEY_LEFTCTRL'', YStr ''KEY_BOGUS''])])])]))
     [Data 0x00, Data 0x81, Data 0x00]
   = (Inl KeyError,
      \<lparr>prev = Some 0x00,
       trace = [Print ''[GV] Using /dev/hidraw0'', UInput_open, Os_open ''/dev/hidraw0'',
                Open_map ''gvmap.yaml'',
                Print ''[GV] Daemon running. Press buttons; readable diagnostics below. Ctrl+C to exit.'',
                Os_read, Print ''[GV] INIT state = 0x00 [none]'',
                Os_read, Print ''[GV] mute_on       . state 0x81 [mute, all]'',
                Requests_post (''mute_on'', ''on'', ''81'', 0x81, [''mute'', ''all'']),
                Ui_write 29 1, Ui_close, Os_close]\<rparr>)"
proof -
  have act0: "active_set 0x00 = Inr []"
    by (simp add: active_set_def PRINT_ORDER_def BIT_NAMES_def bit_defs dict_item_def)
  have act: "active_set 0x81 = Inr [''mute'', ''all'']"
    by (simp add: active_set_def PRINT_ORDER_def BIT_NAMES_def bit_defs dict_item_def)
  have f0: "fmt_mask 0x00 = Inr ''0x00 [none]''"
    by (simp add: fmt_mask_def act0 hex02_def hex_digit_def)
  have f: "fmt_mask 0x81 = Inr ''0x81 [mute, all]''"
    by (simp add: fmt_mask_def act hex02_def hex_digit_def)
  have h: "hex02 0x81 = ''81''"
    by (simp add: hex02_def hex_digit_def)
  have d: "decode_edges 0x00 0x81 = Inr [(''mute_on'', 0x80, ''on''), (''all_on'', 0x01, ''on'')]"
    by (simp add: decode_edges_def PRINT_ORDER_def BIT_NAMES_def bit_defs dict_item_def Let_def)
  have l: "ljust12 ''mute_on'' = ''mute_on     ''"
    by (simp add: ljust12_def numeral_eq_Suc)
  show ?thesis
    by (simp add: main_defs io_defs act f0 f h d l)
qed

lemma load_map_malformed:
  assumes "\<forall>kvs. data = YDict kvs \<longrightarrow> map_of kvs ''bindings'' = None"
  shows "load_map (Inr data) = Inl (ValueError ''Top-level 'bindings' missing in mapping file.'')"
  using assms by (cases data) (simp_all add: load_map_def)

lemma main_malformed:
  assumes "map_file env = Inr data"
    and "\<forall>kvs. data = YDict kvs \<longrightarrow> map_of kvs ''bindings'' = None"
  shows "(\<exists>e. fst (main env reads) = Inl e) \<and> Os_read \<notin> set (trace (snd (main env reads)))
       \<and> ((\<forall>tr eff. raises env tr eff = None) \<longrightarrow>
            fst (main env reads)
              = Inl (ValueError ''Top-level 'bindings' missing in mapping file.''))"
  by (simp add: main_def main_with_def locate_node_def HIDRAW_OVERRIDE_def MAP_FILE_def
      io_defs start_def assms(1) load_map_malformed [OF assms(2)] split: option.split)

lemma main_starts_polling:
  assumes "\<forall>tr eff. raises env tr eff = None" and "map_file env = Inr (YDict kvs)"
    and "map_of kvs ''bindings'' = Some bnd"
  shows "fst (main env []) = Inr Polling"
  using assms
  by (simp add: main_def main_with_def guarded_loop_def locate_node_def HIDRAW_OVERRIDE_def
      MAP_FILE_def io_defs start_def load_map_def)

lemma do_action_unknown_kind:
  assumes "map_of kvs ''type'' = Some t" and "t \<noteq> YStr ''key''" and "t \<noteq> YStr ''shell''"
  shows "do_action env (YDict kvs) s = (Inr (), s)"
  using assms by (simp add: do_action_def yaml_get_def io_bind_def io_lift_def io_return_def)

text \<open>
  C4, as the code has it. A loaded value that is not a dict with the key
  \<^verbatim>\<open>bindings\<close> is fatal at startup: \<^verbatim>\<open>main\<close> ends with an exception (the
  \<^verbatim>\<open>ValueError\<close> of \<^verbatim>\<open>load_map\<close> when the calls before it succeed) and never reads the
  device. The kind of an action spec is not checked at startup: whatever is stored under
  \<^verbatim>\<open>bindings\<close>, the daemon reaches the poll loop, and dispatching a spec whose
  \<^verbatim>\<open>type\<close> is neither \<^verbatim>\<open>key\<close> nor \<^verbatim>\<open>shell\<close> does nothing and raises nothing.
\<close>

theorem config_check:
  "(map_file env = Inr data \<longrightarrow>
      (\<forall>kvs. data = YDict kvs \<longrightarrow> map_of kvs ''bindings'' = None) \<longrightarrow>
        (\<exists>e. fst (main env reads) = Inl e)
        \<and> Os_read \<notin> set (trace (snd (main env reads)))
        \<and> ((\<forall>tr eff. raises env tr eff = None) \<longrightarrow>
            fst (main env reads)
              = Inl (ValueError ''Top-level 'bindings' missing in mapping file.'')))
   \<and> ((\<forall>tr eff. raises env' tr eff = None) \<longrightarrow> map_file env' = Inr (YDict tkvs) \<longrightarrow>
        map_of tkvs ''bindings'' = Some bnd \<longrightarrow> fst (main env' []) = Inr Polling)
   \<and> (map_of kvs ''type'' = Some t \<longrightarrow> t \<noteq> YStr ''key'' \<longrightarrow> t \<noteq> YStr ''shell'' \<longrightarrow>
        do_action env'' (YDict kvs) s = (Inr (), s))"
  using main_malformed [of env data reads] main_starts_polling [of env' tkvs bnd]
    do_action_unknown_kind [of kvs t env'' s]
  by (intro conjI impI) blast+

theorem config_check_witness:
  "fst (main (env_of (YList [])) [Data 0x00])
     = Inl (ValueError ''Top-level 'bindings' missing in mapping file.'')
   \<and> Os_read \<notin> set (trace (snd (main (env_of (YList [])) [Data 0x00])))
   \<and> fst (main (env_of (YDict [(''bindings'', YDict [(''mute_on'', YDict [(''type'', YStr ''bogus'')])])])) [])
       = Inr Polling
   \<and> do_action (env_of YNull) (YDict [(''type'', YStr ''bogus'')]) start = (Inr (), start)"
proof -
  have q: "\<forall>tr eff. raises (env_of d) tr eff = None" for d
    by (simp add: env_of_def quiet_def)
  have m: "map_file (env_of d) = Inr d" for d
    by (simp add: env_of_def)
  have n: "\<forall>kvs. YList [] = YDict kvs \<longrightarrow> map_of kvs ''bindings'' = None"
    by simp
  have b: "map_of [(''bindings'', YDict [(''mute_on'', YDict [(''type'', YStr ''bogus'')])])] ''bindings''
      = Some (YDict [(''mute_on'', YDict [(''type'', YStr ''bogus'')])])"
    by simp
  have t: "map_of [(''type'', YStr ''bogus'')] ''type'' = Some (YStr ''bogus'')"
    and t1: "YStr ''bogus'' \<noteq> YStr ''key''" and t2: "YStr ''bogus'' \<noteq> YStr ''shell''"
    by simp_all
  note c = config_check [of "env_of (YList [])" "YList []" "[Data 0x00]"
      "env_of (YDict [(''bindings'', YDict [(''mute_on'', YDict [(''type'', YStr ''bogus'')])])])"
      "[(''bindings'', YDict [(''mute_on'', YDict [(''type'', YStr ''bogus'')])])]"
      "YDict [(''mute_on'', YDict [(''type'', YStr ''bogus'')])]"
      "[(''type'', YStr ''bogus'')]" "YStr ''bogus''" "env_of YNull" start]
  from c m n q have 1: "fst (main (env_of (YList [])) [Data 0x00])
     = Inl (ValueError ''Top-level 'bindings' missing in mapping file.'')"
    and 2: "Os_read \<notin> set (trace (snd (main (env_of (YList [])) [Data 0x00])))"
    by blast+
  from c q m b have 3: "fst (main (env_of (YDict [(''bindings'',
        YDict [(''mute_on'', YDict [(''type'', YStr ''bogus'')])])])) []) = Inr Polling"
    by blast
  from c t t1 t2 have 4: "do_action (env_of YNull) (YDict [(''type'', YStr ''bogus'')]) start
      = (Inr (), start)"
    by blast
  from 1 2 3 4 show ?thesis by (intro conjI)
qed

text \<open>
  C4, as the specification states it, fails: a binding table whose only action spec has the unknown
  kind \<^verbatim>\<open>bogus\<close> is accepted. The daemon polls, and on the edge \<^verbatim>\<open>mute_on\<close> it logs
  and notifies, does nothing for the action, and goes on polling.
\<close>

theorem unknown_kind_is_polled:
  "main (env_of (YDict [(''bindings'', YDict [(''mute_on'', YDict [(''type'', YStr ''bogus'')])])]))
     [Data 0x00, Data 0x80]
   = (Inr Polling,
      \<lparr>prev = Some 0x80,
       trace = [Print ''[GV] Using /dev/hidraw0'', UInput_open, Os_open ''/dev/hidraw0'',
                Open_map ''gvmap.yaml'',
                Print ''[GV] Daemon running. Press buttons; readable diagnostics below. Ctrl+C to exit.'',
                Os_read, Print ''[GV] INIT state = 0x00 [none]'',
                Os_read, Print ''[GV] mute_on       . state 0x80 [mute]'',
                Requests_post (''mute_on'', ''on'', ''80'', 0x80, [''mute'']),
                Sleep]\<rparr>)"
proof -
  have act0: "active_set 0x00 = Inr []"
    by (simp add: active_set_def PRINT_ORDER_def BIT_NAMES_def bit_defs dict_item_def)
  have act: "active_set 0x80 = Inr [''mute'']"
    by (simp add: active_set_def PRINT_ORDER_def BIT_NAMES_def bit_defs dict_item_def)
  have f0: "fmt_mask 0x00 = Inr ''0x00 [none]''"
    by (simp add: fmt_mask_def act0 hex02_def hex_digit_def)
  have f: "fmt_mask 0x80 = Inr ''0x80 [mute]''"
    by (simp add: fmt_mask_def act hex02_def hex_digit_def)
  have h: "hex02 0x80 = ''80''"
    by (simp add: hex02_def hex_digit_def)
  have d: "decode_edges 0x00 0x80 = Inr [(''mute_on'', 0x80, ''on'')]"
    by (simp add: decode_edges_def PRINT_ORDER_def BIT_NAMES_def bit_defs dict_item_def Let_def)
  have l: "ljust12 ''mute_on'' = ''mute_on     ''"
    by (simp add: ljust12_def numeral_eq_Suc)
  show ?thesis
    by (simp add: main_defs io_defs act f0 f h d l)
qed

end
